theory Spec2Isabelle
  imports Main "HOL-Library.Word"
begin

section \<open>Python values and the runtime the bot calls into\<close>

text \<open>
  A Python \<^verbatim>\<open>str\<close> is a sequence of Unicode code points. Code points are natural
  numbers here; \<open>str\<close> turns an ASCII literal of the theory into such a sequence.
\<close>

type_synonym codepoint = nat
type_synonym pystr = "codepoint list"

definition str :: "string \<Rightarrow> pystr" where
  "str s = map of_char s"

text \<open>
  The exceptions that the file, JSON and dictionary primitives raise. All of them are
  subclasses of \<^verbatim>\<open>Exception\<close>, which is what the handlers of the source catch.
\<close>

datatype exn =
    OSError | PermissionError | JSONDecodeError | UnicodeDecodeError | RecursionError
  | TypeError | ValueError | AttributeError | KeyError

text \<open>
  The values that \<^verbatim>\<open>json.load\<close> produces and that the statistics dictionary holds.
  A dictionary keeps its insertion order, so it is a list of pairs; a float is its
  IEEE-754 bit pattern.
\<close>

datatype pyval =
    PNone
  | PBool bool
  | PInt int
  | PFloat "64 word"
  | PStr pystr
  | PList "pyval list"
  | PDict "(pystr \<times> pyval) list"

type_synonym pydict = "(pystr \<times> pyval) list"

text \<open>
  What the program uses from the Python runtime and standard library, none of which is
  code of the repository: the Unicode tables (alphanumeric code points above ASCII,
  \<^verbatim>\<open>str.lower\<close> on text that is not pure ASCII), float addition of one, \<^verbatim>\<open>int()\<close>
  on text, and the JSON codec. \<open>json_dump\<close> returns the text written to the file and
  the exception it raised, if any.
\<close>

record pylib =
  uni_isalnum :: "codepoint \<Rightarrow> bool"
  uni_lower :: "pystr \<Rightarrow> pystr"
  float_add1 :: "64 word \<Rightarrow> 64 word"
  py_int :: "pystr \<Rightarrow> exn + int"
  json_load :: "pystr \<Rightarrow> exn + pyval"
  json_dump :: "pyval \<Rightarrow> pystr \<times> exn option"

section \<open>Regular expressions: the fragment the bot uses\<close>

text \<open>
  Every pattern of the source is \<^verbatim>\<open>\b\<close>, a run of ASCII letters, \<^verbatim>\<open>\b\<close>, compiled with
  \<^verbatim>\<open>re.I\<close>. With that flag the compiler lowercases a literal and the matcher compares it
  with the lowercased character of the text. For the letters that occur in these
  patterns (a b e m n o u w) the only code points that lowercase to them are the
  letters and their ASCII capitals, so ASCII lowercasing is exact.
\<close>

definition ascii_lower :: "codepoint \<Rightarrow> codepoint" where
  "ascii_lower c = (if 65 \<le> c \<and> c \<le> 90 then c + 32 else c)"

definition ascii_word :: "codepoint \<Rightarrow> bool" where
  "ascii_word c \<longleftrightarrow> (48 \<le> c \<and> c \<le> 57) \<or> (65 \<le> c \<and> c \<le> 90) \<or> c = 95 \<or> (97 \<le> c \<and> c \<le> 122)"

text \<open>\<^verbatim>\<open>\w\<close> on a \<^verbatim>\<open>str\<close> pattern: alphanumeric in Unicode, or the underscore.\<close>

definition is_word :: "pylib \<Rightarrow> codepoint \<Rightarrow> bool" where
  "is_word L c = (if c < 128 then ascii_word c else uni_isalnum L c)"

datatype re_item = Boundary | Literal codepoint

type_synonym pattern = "re_item list"

text \<open>The two characters backslash and b of a raw pattern string.\<close>

definition word_boundary :: pystr where
  "word_boundary = [92, 98]"

text \<open>\<^verbatim>\<open>re.compile(pat, re.I)\<close> on patterns made of \<^verbatim>\<open>\b\<close> and literal characters.\<close>

fun re_compile :: "pystr \<Rightarrow> pattern" where
  "re_compile [] = []"
| "re_compile [c] = [Literal (ascii_lower c)]"
| "re_compile (c # d # r) =
     (if c = 92 \<and> d = 98 then Boundary # re_compile r
      else Literal (ascii_lower c) # re_compile (d # r))"

text \<open>
  \<^verbatim>\<open>\b\<close> holds at position \<open>i\<close> when exactly one of the characters before and at \<open>i\<close> is
  a word character; outside the text there is no word character.
\<close>

definition word_before :: "pylib \<Rightarrow> pystr \<Rightarrow> nat \<Rightarrow> bool" where
  "word_before L text i \<longleftrightarrow> 0 < i \<and> i \<le> length text \<and> is_word L (text ! (i - 1))"

definition word_here :: "pylib \<Rightarrow> pystr \<Rightarrow> nat \<Rightarrow> bool" where
  "word_here L text i \<longleftrightarrow> i < length text \<and> is_word L (text ! i)"

definition at_boundary :: "pylib \<Rightarrow> pystr \<Rightarrow> nat \<Rightarrow> bool" where
  "at_boundary L text i \<longleftrightarrow> text \<noteq> [] \<and> word_before L text i \<noteq> word_here L text i"

text \<open>Matching a compiled pattern at a position; the result is the end of the match.\<close>

fun match_here :: "pylib \<Rightarrow> pattern \<Rightarrow> pystr \<Rightarrow> nat \<Rightarrow> nat option" where
  "match_here L [] text i = Some i"
| "match_here L (Boundary # r) text i =
     (if at_boundary L text i then match_here L r text i else None)"
| "match_here L (Literal c # r) text i =
     (if i < length text \<and> ascii_lower (text ! i) = c then match_here L r text (Suc i)
      else None)"

text \<open>\<^verbatim>\<open>pat.search(text)\<close>: the match at the leftmost position where there is one.\<close>

fun search_from :: "pylib \<Rightarrow> pattern \<Rightarrow> pystr \<Rightarrow> nat list \<Rightarrow> (nat \<times> nat) option" where
  "search_from L pat text [] = None"
| "search_from L pat text (i # rest) =
     (case match_here L pat text i of
        Some j \<Rightarrow> Some (i, j)
      | None \<Rightarrow> search_from L pat text rest)"

definition re_search :: "pylib \<Rightarrow> pattern \<Rightarrow> pystr \<Rightarrow> (nat \<times> nat) option" where
  "re_search L pat text = search_from L pat text [0..<Suc (length text)]"

text \<open>\<^verbatim>\<open>m.group(0)\<close>: the slice of the text that the match covers.\<close>

definition group0 :: "pystr \<Rightarrow> nat \<times> nat \<Rightarrow> pystr" where
  "group0 text m = take (snd m - fst m) (drop (fst m) text)"

section \<open>The pattern matcher\<close>

definition MISSPELLINGS_RAW :: "pystr list" where
  "MISSPELLINGS_RAW =
    [word_boundary @ str ''mbuemo'' @ word_boundary,
     word_boundary @ str ''mbeuemo'' @ word_boundary,
     word_boundary @ str ''mbeuomo'' @ word_boundary,
     word_boundary @ str ''mbeuono'' @ word_boundary,
     word_boundary @ str ''mbeoumo'' @ word_boundary,
     word_boundary @ str ''mboomo'' @ word_boundary,
     word_boundary @ str ''mbeemo'' @ word_boundary,
     word_boundary @ str ''mbeuno'' @ word_boundary,
     word_boundary @ str ''meubomo'' @ word_boundary,
     word_boundary @ str ''mboma'' @ word_boundary,
     word_boundary @ str ''mbumeo'' @ word_boundary,
     word_boundary @ str ''mbewmoe'' @ word_boundary]"

definition MISSPELLINGS :: "pattern list" where
  "MISSPELLINGS = map re_compile MISSPELLINGS_RAW"

definition CORRECT_NAME :: pystr where
  "CORRECT_NAME = str ''Mbeumo''"

text \<open>The loop of \<open>find_misspelling\<close> over the compiled patterns.\<close>

fun scan_patterns :: "pylib \<Rightarrow> pattern list \<Rightarrow> pystr \<Rightarrow> pystr option" where
  "scan_patterns L [] text = None"
| "scan_patterns L (pat # pats) text =
     (case re_search L pat text of
        Some m \<Rightarrow> Some (group0 text m)
      | None \<Rightarrow> scan_patterns L pats text)"

definition find_misspelling :: "pylib \<Rightarrow> pystr \<Rightarrow> pystr option" where
  "find_misspelling L text =
     (if re_search L (re_compile (word_boundary @ CORRECT_NAME @ word_boundary)) text \<noteq> None
      then None
      else scan_patterns L MISSPELLINGS text)"

section \<open>The stats store\<close>

subsection \<open>Dictionaries\<close>

text \<open>\<^verbatim>\<open>d[k] = v\<close>: an existing key keeps its place, a new key goes to the end.\<close>

fun dict_set :: "pydict \<Rightarrow> pystr \<Rightarrow> pyval \<Rightarrow> pydict" where
  "dict_set [] k v = [(k, v)]"
| "dict_set ((k', v') # d) k v =
     (if k' = k then (k, v) # d else (k', v') # dict_set d k v)"

text \<open>\<^verbatim>\<open>d.setdefault(k, v)\<close> on a dictionary: nothing happens when the key is present.\<close>

definition dict_setdefault :: "pydict \<Rightarrow> pystr \<Rightarrow> pyval \<Rightarrow> pydict" where
  "dict_setdefault d k v = (case map_of d k of Some _ \<Rightarrow> d | None \<Rightarrow> d @ [(k, v)])"

text \<open>The same call on any value: only a dictionary has the method.\<close>

fun py_setdefault :: "pyval \<Rightarrow> pystr \<Rightarrow> pyval \<Rightarrow> exn + pyval" where
  "py_setdefault (PDict d) k v = Inr (PDict (dict_setdefault d k v))"
| "py_setdefault _ k v = Inl AttributeError"

text \<open>\<^verbatim>\<open>d[k]\<close> raises \<^verbatim>\<open>KeyError\<close> on a missing key.\<close>

definition dict_getitem :: "pydict \<Rightarrow> pystr \<Rightarrow> exn + pyval" where
  "dict_getitem d k = (case map_of d k of None \<Rightarrow> Inl KeyError | Some v \<Rightarrow> Inr v)"

text \<open>\<^verbatim>\<open>x + 1\<close>: defined on integers, booleans (which are integers) and floats.\<close>

fun py_add1 :: "pylib \<Rightarrow> pyval \<Rightarrow> exn + pyval" where
  "py_add1 L (PInt n) = Inr (PInt (n + 1))"
| "py_add1 L (PBool b) = Inr (PInt ((if b then 1 else 0) + 1))"
| "py_add1 L (PFloat x) = Inr (PFloat (float_add1 L x))"
| "py_add1 L _ = Inl TypeError"

text \<open>
  \<^verbatim>\<open>s.lower()\<close>: on pure ASCII text it lowercases the capitals; otherwise it is the
  runtime's Unicode lowercasing.
\<close>

definition py_lower :: "pylib \<Rightarrow> pystr \<Rightarrow> pystr" where
  "py_lower L s = (if list_all (\<lambda>c. c < 128) s then map ascii_lower s else uni_lower L s)"

subsection \<open>The backing file\<close>

text \<open>
  The file at \<^verbatim>\<open>STATS_PATH\<close> as the program meets it: absent; out of reach, when
  \<^verbatim>\<open>stat\<close> on the path fails with an error other than the four that mean ``not
  there'' (for example \<^verbatim>\<open>PermissionError\<close> on a directory without search
  permission); present but failing to open or read with some exception; or present
  with some text.
\<close>

datatype file_state = Absent | StatFails exn | Unreadable exn | Content pystr

text \<open>What the operating system does to one attempt at writing the file.\<close>

datatype write_fault =
    NoFault
  | OpenFails exn
  | WriteFails nat exn

text \<open>The lines the program prints.\<close>

datatype printed = WarnPollIntervalTooLow | StatsFailedToSave exn

definition KEY_START_TIME :: pystr where
  "KEY_START_TIME = str ''start_time''"

definition KEY_TOTAL :: pystr where
  "KEY_TOTAL = str ''total_corrections''"

definition KEY_MISSPELLINGS :: pystr where
  "KEY_MISSPELLINGS = str ''misspellings''"

subsection \<open>\<open>load_stats\<close>\<close>

text \<open>The dictionary literal that \<open>load_stats\<close> returns when it falls through.\<close>

definition fresh_stats :: "pystr \<Rightarrow> pyval" where
  "fresh_stats now =
     PDict [(KEY_START_TIME, PStr now), (KEY_TOTAL, PInt 0), (KEY_MISSPELLINGS, PDict [])]"

text \<open>
  \<^verbatim>\<open>STATS_PATH.exists()\<close>: \<^verbatim>\<open>pathlib\<close> calls \<^verbatim>\<open>stat\<close>, answers \<^verbatim>\<open>False\<close> for
  the errors ENOENT, ENOTDIR, EBADF and ELOOP, and raises every other \<^verbatim>\<open>OSError\<close>
  again. A file that is there but cannot be opened or read exists.
\<close>

fun path_exists :: "file_state \<Rightarrow> exn + bool" where
  "path_exists Absent = Inr False"
| "path_exists (StatFails e) = Inl e"
| "path_exists (Unreadable e) = Inr True"
| "path_exists (Content text) = Inr True"

fun open_read :: "file_state \<Rightarrow> exn + pystr" where
  "open_read Absent = Inl OSError"
| "open_read (StatFails e) = Inl e"
| "open_read (Unreadable e) = Inl e"
| "open_read (Content text) = Inr text"

text \<open>
  The body of the \<^verbatim>\<open>try\<close>: open, parse, three \<^verbatim>\<open>setdefault\<close> calls. \<open>now\<close> is
  \<^verbatim>\<open>datetime.now(timezone.utc).isoformat()\<close>.
\<close>

definition load_stats_try :: "pylib \<Rightarrow> pystr \<Rightarrow> file_state \<Rightarrow> exn + pyval" where
  "load_stats_try L now file =
     (case open_read file of
        Inl e \<Rightarrow> Inl e
      | Inr text \<Rightarrow>
          (case json_load L text of
             Inl e \<Rightarrow> Inl e
           | Inr data \<Rightarrow>
               (case py_setdefault data KEY_START_TIME (PStr now) of
                  Inl e \<Rightarrow> Inl e
                | Inr data1 \<Rightarrow>
                    (case py_setdefault data1 KEY_TOTAL (PInt 0) of
                       Inl e \<Rightarrow> Inl e
                     | Inr data2 \<Rightarrow> py_setdefault data2 KEY_MISSPELLINGS (PDict [])))))"

text \<open>
  \<open>load_stats\<close>: the test \<^verbatim>\<open>if STATS_PATH.exists()\<close> stands before the \<^verbatim>\<open>try\<close>, so
  an exception of the test leaves the function; \<^verbatim>\<open>except Exception: pass\<close> turns every
  exception of the body into the fall-through.
\<close>

definition load_stats :: "pylib \<Rightarrow> pystr \<Rightarrow> file_state \<Rightarrow> exn + pyval" where
  "load_stats L now file =
     (case path_exists file of
        Inl e \<Rightarrow> Inl e
      | Inr True \<Rightarrow>
          (case load_stats_try L now file of
             Inr data \<Rightarrow> Inr data
           | Inl e \<Rightarrow> Inr (fresh_stats now))
      | Inr False \<Rightarrow> Inr (fresh_stats now))"

subsection \<open>\<open>save_stats\<close>\<close>

text \<open>
  The body of the \<^verbatim>\<open>try\<close>: opening for writing truncates the file, then
  \<^verbatim>\<open>json.dump\<close> writes its text. The result is the file afterwards and the exception
  raised, if any. A failed open leaves the file as it was; a failed write leaves the
  characters written so far.
\<close>

definition save_stats_try :: "pylib \<Rightarrow> write_fault \<Rightarrow> pyval \<Rightarrow> file_state \<Rightarrow> file_state \<times> exn option" where
  "save_stats_try L fault stats file =
     (case fault of
        OpenFails e \<Rightarrow> (file, Some e)
      | WriteFails n e \<Rightarrow> (Content (take n (fst (json_dump L stats))), Some e)
      | NoFault \<Rightarrow> (Content (fst (json_dump L stats)), snd (json_dump L stats)))"

text \<open>\<open>save_stats\<close>: the handler prints the exception and returns.\<close>

definition save_stats :: "pylib \<Rightarrow> write_fault \<Rightarrow> pyval \<Rightarrow> file_state \<Rightarrow> exn + file_state \<times> printed list" where
  "save_stats L fault stats file =
     (case save_stats_try L fault stats file of
        (file', None) \<Rightarrow> Inr (file', [])
      | (file', Some e) \<Rightarrow> Inr (file', [StatsFailedToSave e]))"

subsection \<open>Recording a correction\<close>

text \<open>
  The three statements of \<open>main\<close> under the comment \<^verbatim>\<open># Update stats\<close>, one function
  each. Each returns the dictionary \<^verbatim>\<open>STATS\<close> after the statement, or the exception.
\<close>

text \<open>\<^verbatim>\<open>STATS["total_corrections"] += 1\<close>\<close>

definition bump_total :: "pylib \<Rightarrow> pydict \<Rightarrow> exn + pydict" where
  "bump_total L stats =
     (case dict_getitem stats KEY_TOTAL of
        Inl e \<Rightarrow> Inl e
      | Inr t \<Rightarrow>
          (case py_add1 L t of
             Inl e \<Rightarrow> Inl e
           | Inr t' \<Rightarrow> Inr (dict_set stats KEY_TOTAL t')))"

text \<open>\<^verbatim>\<open>STATS["misspellings"].setdefault(misspelling.lower(), 0)\<close>\<close>

definition ensure_count :: "pystr \<Rightarrow> pydict \<Rightarrow> exn + pydict" where
  "ensure_count key stats =
     (case dict_getitem stats KEY_MISSPELLINGS of
        Inl e \<Rightarrow> Inl e
      | Inr m \<Rightarrow>
          (case py_setdefault m key (PInt 0) of
             Inl e \<Rightarrow> Inl e
           | Inr m' \<Rightarrow> Inr (dict_set stats KEY_MISSPELLINGS m')))"

text \<open>\<^verbatim>\<open>STATS["misspellings"][misspelling.lower()] += 1\<close>\<close>

definition bump_count :: "pylib \<Rightarrow> pystr \<Rightarrow> pydict \<Rightarrow> exn + pydict" where
  "bump_count L key stats =
     (case dict_getitem stats KEY_MISSPELLINGS of
        Inl e \<Rightarrow> Inl e
      | Inr (PDict m) \<Rightarrow>
          (case dict_getitem m key of
             Inl e \<Rightarrow> Inl e
           | Inr c \<Rightarrow>
               (case py_add1 L c of
                  Inl e \<Rightarrow> Inl e
                | Inr c' \<Rightarrow> Inr (dict_set stats KEY_MISSPELLINGS (PDict (dict_set m key c')))))
      | Inr _ \<Rightarrow> Inl TypeError)"

text \<open>
  The three statements in order. The dictionary is mutated in place, so when a statement
  raises, the effect of the earlier ones stays: the result is the exception, if any,
  and \<^verbatim>\<open>STATS\<close> as it is then.
\<close>

definition record_correction :: "pylib \<Rightarrow> pystr \<Rightarrow> pydict \<Rightarrow> exn option \<times> pydict" where
  "record_correction L misspelling stats =
     (case bump_total L stats of
        Inl e \<Rightarrow> (Some e, stats)
      | Inr stats1 \<Rightarrow>
          (case ensure_count (py_lower L misspelling) stats1 of
             Inl e \<Rightarrow> (Some e, stats1)
           | Inr stats2 \<Rightarrow>
               (case bump_count L (py_lower L misspelling) stats2 of
                  Inl e \<Rightarrow> (Some e, stats2)
                | Inr stats3 \<Rightarrow> (None, stats3))))"

text \<open>A sequence of corrections, up to the first one that raises.\<close>

fun record_corrections :: "pylib \<Rightarrow> pystr list \<Rightarrow> pydict \<Rightarrow> exn option \<times> pydict" where
  "record_corrections L [] stats = (None, stats)"
| "record_corrections L (w # ws) stats =
     (case record_correction L w stats of
        (None, stats') \<Rightarrow> record_corrections L ws stats'
      | (Some e, stats') \<Rightarrow> (Some e, stats'))"

section \<open>The poll interval\<close>

text \<open>
  The first statements of \<open>main\<close> after the client is built. \<open>env\<close> is the value of
  \<^verbatim>\<open>POLL_INTERVAL_SECONDS\<close> in the environment, if it is set; \<^verbatim>\<open>int()\<close> may raise.
\<close>

definition poll_interval :: "pylib \<Rightarrow> pystr option \<Rightarrow> exn + int \<times> printed list" where
  "poll_interval L env =
     (case py_int L (case env of None \<Rightarrow> str ''60'' | Some v \<Rightarrow> v) of
        Inl e \<Rightarrow> Inl e
      | Inr n \<Rightarrow> if n < 10 then Inr (10, [WarnPollIntervalTooLow]) else Inr (n, []))"

section \<open>The notions of the specification\<close>

subsection \<open>Whole words\<close>

text \<open>
  The specification speaks of a name that appears \<^emph>\<open>as a whole word, in any casing\<close>:
  the letters agree up to case, and the occurrence is bounded on both sides by the end
  of the text or by a character that is not a word character.
\<close>

definition same_ignoring_case :: "pystr \<Rightarrow> pystr \<Rightarrow> bool" where
  "same_ignoring_case a b \<longleftrightarrow> map ascii_lower a = map ascii_lower b"

definition whole_word_at :: "pylib \<Rightarrow> pystr \<Rightarrow> pystr \<Rightarrow> nat \<Rightarrow> bool" where
  "whole_word_at L w text i \<longleftrightarrow>
     i + length w \<le> length text \<and>
     same_ignoring_case (take (length w) (drop i text)) w \<and>
     (i = 0 \<or> \<not> is_word L (text ! (i - 1))) \<and>
     (i + length w = length text \<or> \<not> is_word L (text ! (i + length w)))"

definition contains_whole_word :: "pylib \<Rightarrow> pystr \<Rightarrow> pystr \<Rightarrow> bool" where
  "contains_whole_word L w text \<longleftrightarrow> (\<exists>i \<in> {0..length text}. whole_word_at L w text i)"

text \<open>The twelve misspellings as plain words, in the order of the pattern list.\<close>

definition MISSPELLED_WORDS :: "pystr list" where
  "MISSPELLED_WORDS =
    [str ''mbuemo'', str ''mbeuemo'', str ''mbeuomo'', str ''mbeuono'', str ''mbeoumo'',
     str ''mboomo'', str ''mbeemo'', str ''mbeuno'', str ''meubomo'', str ''mboma'',
     str ''mbumeo'', str ''mbewmoe'']"

text \<open>
  The result the specification describes for a text without the correct name: take the
  first word of the list that occurs in the text as a whole word, and return the text's
  own characters at its leftmost occurrence; no match when no word of the list occurs.
\<close>

definition first_whole_word :: "pylib \<Rightarrow> pystr list \<Rightarrow> pystr \<Rightarrow> pystr option" where
  "first_whole_word L ws text =
     (case List.find (\<lambda>w. contains_whole_word L w text) ws of
        None \<Rightarrow> None
      | Some w \<Rightarrow>
          (case List.find (whole_word_at L w text) [0..<Suc (length text)] of
             None \<Rightarrow> None
           | Some i \<Rightarrow> Some (take (length w) (drop i text))))"

text \<open>
  The shape of every compiled pattern of the program: a word between two boundaries,
  the word being a non-empty run of lowercase ASCII letters.
\<close>

definition whole_word_pattern :: "pystr \<Rightarrow> pattern" where
  "whole_word_pattern w = Boundary # map Literal w @ [Boundary]"

definition lower_word :: "pystr \<Rightarrow> bool" where
  "lower_word w \<longleftrightarrow> w \<noteq> [] \<and> (\<forall>c \<in> set w. 97 \<le> c \<and> c \<le> 122)"

subsection \<open>Well-formed statistics\<close>

text \<open>
  The integer a counter holds. A JSON \<^verbatim>\<open>true\<close> or \<^verbatim>\<open>false\<close> is a Python integer too;
  floats are left out, their arithmetic being outside this model.
\<close>

fun as_int :: "pyval \<Rightarrow> int option" where
  "as_int (PInt n) = Some n"
| "as_int (PBool b) = Some (if b then 1 else 0)"
| "as_int _ = None"

text \<open>\<^verbatim>\<open>sum(misspellings.values())\<close>, defined when every count is an integer.\<close>

fun sum_counts :: "pydict \<Rightarrow> int option" where
  "sum_counts [] = Some 0"
| "sum_counts ((k, v) # m) =
     (case as_int v of
        None \<Rightarrow> None
      | Some n \<Rightarrow> (case sum_counts m of None \<Rightarrow> None | Some t \<Rightarrow> Some (n + t)))"

fun is_str :: "pyval option \<Rightarrow> bool" where
  "is_str (Some (PStr s)) = True"
| "is_str _ = False"

fun is_int :: "pyval option \<Rightarrow> bool" where
  "is_int (Some v) = (as_int v \<noteq> None)"
| "is_int None = False"

fun is_counts :: "pyval option \<Rightarrow> bool" where
  "is_counts (Some (PDict m)) = (sum_counts m \<noteq> None)"
| "is_counts _ = False"

text \<open>
  A statistics dictionary of the shape the specification gives to \<open>CorrectionStats\<close>:
  an integer total and a mapping from strings to integers.
\<close>

definition stats_typed :: "pydict \<Rightarrow> bool" where
  "stats_typed stats \<longleftrightarrow>
     is_int (map_of stats KEY_TOTAL) \<and> is_counts (map_of stats KEY_MISSPELLINGS)"

text \<open>The same with the start time, as the persisted file has it.\<close>

definition stats_complete :: "pydict \<Rightarrow> bool" where
  "stats_complete stats \<longleftrightarrow> is_str (map_of stats KEY_START_TIME) \<and> stats_typed stats"

text \<open>The invariant: \<^verbatim>\<open>total_corrections == sum(misspellings.values())\<close>.\<close>

fun totals_agree_on :: "pyval option \<Rightarrow> pyval option \<Rightarrow> bool" where
  "totals_agree_on (Some t) (Some (PDict m)) = (as_int t \<noteq> None \<and> sum_counts m = as_int t)"
| "totals_agree_on _ _ = False"

definition totals_agree :: "pydict \<Rightarrow> bool" where
  "totals_agree stats \<longleftrightarrow>
     totals_agree_on (map_of stats KEY_TOTAL) (map_of stats KEY_MISSPELLINGS)"

text \<open>Reading the counters out of a statistics dictionary.\<close>

definition total_of :: "pydict \<Rightarrow> int option" where
  "total_of stats = (case map_of stats KEY_TOTAL of None \<Rightarrow> None | Some t \<Rightarrow> as_int t)"

fun dict_entry :: "pyval option \<Rightarrow> pystr \<Rightarrow> pyval option" where
  "dict_entry (Some (PDict m)) k = map_of m k"
| "dict_entry _ k = None"

text \<open>The entry of a misspelling in the per-misspelling mapping, if there is one.\<close>

definition misspelling_entry :: "pydict \<Rightarrow> pystr \<Rightarrow> pyval option" where
  "misspelling_entry stats k = dict_entry (map_of stats KEY_MISSPELLINGS) k"

text \<open>The count of a misspelling: zero without an entry.\<close>

definition misspelling_count :: "pydict \<Rightarrow> pystr \<Rightarrow> int option" where
  "misspelling_count stats k =
     (case misspelling_entry stats k of None \<Rightarrow> Some 0 | Some v \<Rightarrow> as_int v)"

subsection \<open>A runtime to evaluate the model with\<close>

text \<open>
  An instance of the runtime for ASCII inputs: no word characters above ASCII,
  \<^verbatim>\<open>int()\<close> on plain decimal digits, a JSON codec that rejects everything. The
  theorems below hold for every runtime; this one serves to run the model on examples.
\<close>

definition decimal_int :: "pystr \<Rightarrow> exn + int" where
  "decimal_int s =
     (if s \<noteq> [] \<and> list_all (\<lambda>c. 48 \<le> c \<and> c \<le> 57) s
      then Inr (int (foldl (\<lambda>a c. 10 * a + (c - 48)) 0 s))
      else Inl ValueError)"

definition ascii_runtime :: pylib where
  "ascii_runtime =
     \<lparr>uni_isalnum = (\<lambda>c. False),
      uni_lower = (\<lambda>s. s),
      float_add1 = (\<lambda>x. x),
      py_int = decimal_int,
      json_load = (\<lambda>text. Inl JSONDecodeError),
      json_dump = (\<lambda>v. ([], Some TypeError))\<rparr>"

text \<open>The lines of a text file, joined by newlines.\<close>

fun text_lines :: "string list \<Rightarrow> pystr" where
  "text_lines [] = []"
| "text_lines [l] = str l"
| "text_lines (l # ls) = str l @ [10] @ text_lines ls"

text \<open>
  The same runtime with a JSON codec that knows one document: it reads the given text
  as the given value and writes the given value as the given text.
\<close>

definition codec_runtime :: "pystr \<Rightarrow> pyval \<Rightarrow> pylib" where
  "codec_runtime doc v =
     ascii_runtime
       \<lparr>json_load := (\<lambda>t. if t = doc then Inr v else Inl JSONDecodeError),
        json_dump := (\<lambda>x. if x = v then (doc, None) else ([], Some TypeError))\<rparr>"

subsection \<open>Sample statistics\<close>

text \<open>
  Statistics with three corrections on record, and the same after ``MBOMA'' and then
  ``Mbeuno'' have been recorded.
\<close>

definition sample_stats :: pydict where
  "sample_stats =
     [(KEY_START_TIME, PStr (str ''2024-05-01T10:00:00+00:00'')),
      (KEY_TOTAL, PInt 3),
      (KEY_MISSPELLINGS, PDict [(str ''mbuemo'', PInt 2), (str ''mboma'', PInt 1)])]"

definition sample_stats_after :: pydict where
  "sample_stats_after =
     [(KEY_START_TIME, PStr (str ''2024-05-01T10:00:00+00:00'')),
      (KEY_TOTAL, PInt 5),
      (KEY_MISSPELLINGS,
       PDict [(str ''mbuemo'', PInt 2), (str ''mboma'', PInt 2), (str ''mbeuno'', PInt 1)])]"

text \<open>The file that \<^verbatim>\<open>json.dump(stats, f, indent=2)\<close> writes for the first of them.\<close>

definition sample_stats_text :: pystr where
  \<open>sample_stats_text =
     text_lines
      [''{'',
       ''  "start_time": "2024-05-01T10:00:00+00:00",'',
       ''  "total_corrections": 3,'',
       ''  "misspellings": {'',
       ''    "mbuemo": 2,'',
       ''    "mboma": 1'',
       ''  }'',
       ''}'']\<close>

text \<open>A file that holds the total and nothing else.\<close>

definition partial_stats_text :: pystr where
  \<open>partial_stats_text = text_lines [''{'', ''  "total_corrections": 7'', ''}'']\<close>

definition partial_stats :: pydict where
  "partial_stats = [(KEY_TOTAL, PInt 7)]"

section \<open>Matching a whole-word pattern\<close>

lemma ascii_lower_idem: "ascii_lower (ascii_lower c) = ascii_lower c"
  by (simp add: ascii_lower_def)

lemma lower_letter_is_word:
  assumes "ascii_lower c = l" and "97 \<le> l" and "l \<le> 122"
  shows "is_word L c"
  using assms by (auto simp: ascii_lower_def is_word_def ascii_word_def split: if_splits)

lemma match_literals:
  "match_here L (map Literal w @ rest) text i =
     (if map ascii_lower (take (length w) (drop i text)) = w
      then match_here L rest text (i + length w) else None)"
proof (induction w arbitrary: i)
  case Nil
  then show ?case by simp
next
  case (Cons c w)
  show ?case
  proof (cases "i < length text")
    case True
    then have d: "drop i text = text ! i # drop (Suc i) text"
      by (simp add: Cons_nth_drop_Suc)
    show ?thesis using True by (auto simp: Cons d)
  next
    case False
    then show ?thesis by simp
  qed
qed

lemma match_whole_word:
  assumes w: "lower_word w"
  shows "match_here L (whole_word_pattern w) text i =
           (if whole_word_at L w text i then Some (i + length w) else None)"
proof -
  let ?lits = "map ascii_lower (take (length w) (drop i text)) = w"
  have lw: "map ascii_lower w = w"
    using w by (auto simp: lower_word_def ascii_lower_def intro!: map_idI)
  from w have n: "0 < length w" by (simp add: lower_word_def)
  have m: "match_here L (whole_word_pattern w) text i =
      (if at_boundary L text i \<and> ?lits \<and> at_boundary L text (i + length w)
       then Some (i + length w) else None)"
    by (simp add: whole_word_pattern_def match_literals)
  show ?thesis
  proof (cases ?lits)
    case False
    then have "\<not> whole_word_at L w text i"
      by (simp add: whole_word_at_def same_ignoring_case_def lw)
    with False m show ?thesis by simp
  next
    case eq: True
    have "length (map ascii_lower (take (length w) (drop i text))) = length w"
      by (simp only: eq)
    then have "min (length text - i) (length w) = length w" by simp
    with n have len: "i + length w \<le> length text" by arith
    have nth: "ascii_lower (text ! (i + k)) = w ! k" if "k < length w" for k
    proof -
      have "map ascii_lower (take (length w) (drop i text)) ! k = w ! k" by (simp only: eq)
      with that len show ?thesis by simp
    qed
    have letter: "97 \<le> w ! k \<and> w ! k \<le> 122" if "k < length w" for k
      using w that by (auto simp: lower_word_def)
    have wordk: "is_word L (text ! (i + k))" if "k < length w" for k
      using lower_letter_is_word [OF nth [OF that]] letter [OF that] by blast
    have first: "is_word L (text ! i)"
      using wordk [of 0] n by simp
    have "i + (length w - 1) = i + length w - 1" "length w - 1 < length w"
      using n by arith+
    then have last: "is_word L (text ! (i + length w - 1))"
      using wordk [of "length w - 1"] by simp
    have ilt: "i < length text" and jpos: "0 < i + length w"
      using len n by arith+
    then have ne: "text \<noteq> []" by auto
    have b1: "at_boundary L text i \<longleftrightarrow> (i = 0 \<or> \<not> is_word L (text ! (i - 1)))"
      using first ilt ne by (auto simp: at_boundary_def word_before_def word_here_def)
    have "word_before L text (i + length w)"
      using last jpos len unfolding word_before_def by simp
    then have b2: "at_boundary L text (i + length w) \<longleftrightarrow>
        (i + length w = length text \<or> \<not> is_word L (text ! (i + length w)))"
      using len ne by (auto simp: at_boundary_def word_here_def)
    have "whole_word_at L w text i \<longleftrightarrow> at_boundary L text i \<and> at_boundary L text (i + length w)"
      using len eq by (simp add: whole_word_at_def same_ignoring_case_def lw b1 b2)
    with eq m show ?thesis by simp
  qed
qed

lemma search_from_find:
  assumes "\<And>i. match_here L pat text i = (if P i then Some (i + n) else None)"
  shows "search_from L pat text ps = map_option (\<lambda>i. (i, i + n)) (List.find P ps)"
  by (induction ps) (simp_all add: assms)

lemma re_search_whole_word:
  assumes "lower_word w"
  shows "re_search L (whole_word_pattern w) text =
           map_option (\<lambda>i. (i, i + length w))
             (List.find (whole_word_at L w text) [0..<Suc (length text)])"
  unfolding re_search_def
  by (rule search_from_find) (rule match_whole_word [OF assms])

lemma contains_whole_word_find:
  "contains_whole_word L w text \<longleftrightarrow>
     List.find (whole_word_at L w text) [0..<Suc (length text)] \<noteq> None"
proof -
  have "set [0..<Suc (length text)] = {0..length text}" by auto
  then show ?thesis
    unfolding contains_whole_word_def find_None_iff by blast
qed

lemma scan_patterns_first:
  assumes "\<forall>w \<in> set ws. lower_word w"
  shows "scan_patterns L (map whole_word_pattern ws) text = first_whole_word L ws text"
  using assms
proof (induction ws)
  case Nil
  then show ?case by (simp add: first_whole_word_def)
next
  case (Cons w ws)
  then have w: "lower_word w" and ws: "\<forall>w \<in> set ws. lower_word w" by auto
  show ?case
  proof (cases "List.find (whole_word_at L w text) [0..<Suc (length text)]")
    case None
    then have "\<not> contains_whole_word L w text" by (simp add: contains_whole_word_find)
    then show ?thesis
      using None Cons.IH [OF ws] by (simp add: re_search_whole_word [OF w] first_whole_word_def)
  next
    case (Some i)
    then have "contains_whole_word L w text" by (simp add: contains_whole_word_find)
    then show ?thesis
      using Some by (simp add: re_search_whole_word [OF w] first_whole_word_def group0_def)
  qed
qed

lemma MISSPELLINGS_words: "MISSPELLINGS = map whole_word_pattern MISSPELLED_WORDS"
  by (simp add: MISSPELLINGS_def MISSPELLINGS_RAW_def MISSPELLED_WORDS_def
      whole_word_pattern_def str_def word_boundary_def ascii_lower_def)

lemma MISSPELLED_WORDS_lower: "\<forall>w \<in> set MISSPELLED_WORDS. lower_word w"
  by (simp add: MISSPELLED_WORDS_def lower_word_def str_def)

lemma CORRECT_NAME_pattern:
  "re_compile (word_boundary @ CORRECT_NAME @ word_boundary) =
     whole_word_pattern (map ascii_lower CORRECT_NAME)"
  by (simp add: CORRECT_NAME_def whole_word_pattern_def str_def word_boundary_def ascii_lower_def)

lemma CORRECT_NAME_lower: "lower_word (map ascii_lower CORRECT_NAME)"
  by (simp add: CORRECT_NAME_def lower_word_def str_def ascii_lower_def)

lemma whole_word_at_lower:
  "whole_word_at L (map ascii_lower w) text = whole_word_at L w text"
  by (rule ext) (simp add: whole_word_at_def same_ignoring_case_def ascii_lower_idem comp_def)

lemma re_search_CORRECT_NAME:
  "re_search L (re_compile (word_boundary @ CORRECT_NAME @ word_boundary)) text \<noteq> None \<longleftrightarrow>
     contains_whole_word L CORRECT_NAME text"
  by (simp add: CORRECT_NAME_pattern re_search_whole_word [OF CORRECT_NAME_lower]
      whole_word_at_lower contains_whole_word_find)

lemma find_misspelling_eq:
  "find_misspelling L text =
     (if contains_whole_word L CORRECT_NAME text then None
      else first_whole_word L MISSPELLED_WORDS text)"
  unfolding find_misspelling_def re_search_CORRECT_NAME MISSPELLINGS_words
  by (simp add: scan_patterns_first [OF MISSPELLED_WORDS_lower])

lemma find_SomeD: "List.find P xs = Some x \<Longrightarrow> x \<in> set xs \<and> P x"
  by (auto simp: find_Some_iff)

lemma first_whole_word_SomeD:
  assumes "first_whole_word L ws text = Some s"
  shows "\<exists>w \<in> set ws. \<exists>i \<le> length text.
           whole_word_at L w text i \<and> s = take (length w) (drop i text)"
proof -
  from assms obtain w where w: "List.find (\<lambda>w. contains_whole_word L w text) ws = Some w"
    by (auto simp: first_whole_word_def split: option.splits)
  with assms obtain i where
    i: "List.find (whole_word_at L w text) [0..<Suc (length text)] = Some i"
    and s: "s = take (length w) (drop i text)"
    by (auto simp: first_whole_word_def split: option.splits)
  from find_SomeD [OF w] have "w \<in> set ws" by simp
  moreover from find_SomeD [OF i] have "i \<le> length text" "whole_word_at L w text i" by auto
  ultimately show ?thesis using s by blast
qed

lemma MISSPELLED_WORDS_not_correct:
  "\<forall>w \<in> set MISSPELLED_WORDS. \<not> same_ignoring_case w CORRECT_NAME"
  by (simp add: MISSPELLED_WORDS_def CORRECT_NAME_def same_ignoring_case_def str_def ascii_lower_def)

lemma slice_decomposition: "text = take i text @ take n (drop i text) @ drop (i + n) text"
proof -
  have "take n (drop i text) @ drop (i + n) text = drop i text"
    by (metis add.commute append_take_drop_id drop_drop)
  then show ?thesis by simp
qed

lemmas eval_matcher =
  find_misspelling_def re_search_def MISSPELLINGS_def MISSPELLINGS_RAW_def str_def
  CORRECT_NAME_def word_boundary_def at_boundary_def word_before_def word_here_def
  is_word_def ascii_word_def ascii_lower_def group0_def upt_rec

lemmas eval_whole_word =
  contains_whole_word_find whole_word_at_def same_ignoring_case_def CORRECT_NAME_def
  str_def is_word_def ascii_word_def ascii_lower_def upt_rec

section \<open>Properties of the pattern matcher\<close>

text \<open>
  Claim C1. For every text that contains the correct name ``Mbeumo'' as a whole word, in
  any casing, \<open>find_misspelling\<close> returns no match, whatever else the text contains.
\<close>

theorem correct_name_suppresses:
  "contains_whole_word L CORRECT_NAME text \<Longrightarrow> find_misspelling L text = None"
  by (simp add: find_misspelling_eq)

text \<open>
  The text of the witness holds both the misspelling ``Mbuemo'' and the correct name in
  capitals; the result is no match.
\<close>

theorem correct_name_suppresses_witness:
  "contains_whole_word ascii_runtime CORRECT_NAME (str ''Mbuemo? No: MBEUMO!'') \<and>
   contains_whole_word ascii_runtime (str ''mbuemo'') (str ''Mbuemo? No: MBEUMO!'') \<and>
   find_misspelling ascii_runtime (str ''Mbuemo? No: MBEUMO!'') = None"
proof -
  have c: "contains_whole_word ascii_runtime CORRECT_NAME (str ''Mbuemo? No: MBEUMO!'')"
    by (simp add: eval_whole_word)
  have m: "contains_whole_word ascii_runtime (str ''mbuemo'') (str ''Mbuemo? No: MBEUMO!'')"
    by (simp add: eval_whole_word)
  from c m correct_name_suppresses [OF c] show ?thesis by simp
qed

text \<open>
  Claim C2. For every text without a whole-word occurrence of the correct name,
  \<open>find_misspelling\<close> returns what the specification describes: the text's own
  characters at the leftmost occurrence of the first misspelling, in list order, that
  occurs in the text as a whole word in any casing, and no match when none occurs. The
  two scenarios of the specification are instances: ``Great goal by Mbuemo!'' gives
  ``Mbuemo'', and ``mbuemo and mboma both misspelled'' gives ``mbuemo''.
\<close>

theorem first_pattern_in_list_order:
  "(\<not> contains_whole_word L CORRECT_NAME text \<longrightarrow>
      find_misspelling L text = first_whole_word L MISSPELLED_WORDS text) \<and>
   find_misspelling L (str ''Great goal by Mbuemo!'') = Some (str ''Mbuemo'') \<and>
   find_misspelling L (str ''mbuemo and mboma both misspelled'') = Some (str ''mbuemo'')"
proof (intro conjI)
  show "\<not> contains_whole_word L CORRECT_NAME text \<longrightarrow>
      find_misspelling L text = first_whole_word L MISSPELLED_WORDS text"
    by (simp add: find_misspelling_eq)
  show "find_misspelling L (str ''Great goal by Mbuemo!'') = Some (str ''Mbuemo'')"
    by (simp add: eval_matcher)
  show "find_misspelling L (str ''mbuemo and mboma both misspelled'') = Some (str ''mbuemo'')"
    by (simp add: eval_matcher)
qed

text \<open>
  In the witness the text has ``mboma'' before ``MBUEMO''; the result is ``MBUEMO'', in
  the casing of the text, because that pattern comes first in the list.
\<close>

theorem first_pattern_in_list_order_witness:
  "\<not> contains_whole_word ascii_runtime CORRECT_NAME (str ''mboma, or MBUEMO'') \<and>
   first_whole_word ascii_runtime MISSPELLED_WORDS (str ''mboma, or MBUEMO'') =
     Some (str ''MBUEMO'') \<and>
   find_misspelling ascii_runtime (str ''mboma, or MBUEMO'') = Some (str ''MBUEMO'')"
proof -
  have c: "\<not> contains_whole_word ascii_runtime CORRECT_NAME (str ''mboma, or MBUEMO'')"
    by (simp add: eval_whole_word)
  have f: "first_whole_word ascii_runtime MISSPELLED_WORDS (str ''mboma, or MBUEMO'') =
      Some (str ''MBUEMO'')"
    by (simp add: first_whole_word_def MISSPELLED_WORDS_def eval_whole_word)
  from c f first_pattern_in_list_order [of ascii_runtime "str ''mboma, or MBUEMO''"]
  show ?thesis by simp
qed

text \<open>
  Claim C9. Whenever \<open>find_misspelling\<close> returns a string, the string is a contiguous
  slice of the text, it is a whole-word occurrence, in some casing, of one of the twelve
  misspellings, the text has no whole-word occurrence of the correct name, and the
  string is not the correct name in any casing.
\<close>

theorem find_misspelling_postcondition:
  assumes "find_misspelling L text = Some s"
  shows "length MISSPELLED_WORDS = 12 \<and>
         (\<exists>w \<in> set MISSPELLED_WORDS. \<exists>i \<le> length text.
            whole_word_at L w text i \<and>
            s = take (length w) (drop i text) \<and>
            text = take i text @ s @ drop (i + length w) text) \<and>
         \<not> contains_whole_word L CORRECT_NAME text \<and>
         \<not> same_ignoring_case s CORRECT_NAME"
proof -
  from assms have c: "\<not> contains_whole_word L CORRECT_NAME text"
    and f: "first_whole_word L MISSPELLED_WORDS text = Some s"
    by (auto simp: find_misspelling_eq split: if_splits)
  from first_whole_word_SomeD [OF f] obtain w i where
    w: "w \<in> set MISSPELLED_WORDS" and i: "i \<le> length text"
    and at: "whole_word_at L w text i" and s: "s = take (length w) (drop i text)"
    by blast
  have d: "text = take i text @ s @ drop (i + length w) text"
    unfolding s by (rule slice_decomposition)
  from at s have "same_ignoring_case s w" by (simp add: whole_word_at_def)
  moreover from w have "\<not> same_ignoring_case w CORRECT_NAME"
    using MISSPELLED_WORDS_not_correct by blast
  ultimately have n: "\<not> same_ignoring_case s CORRECT_NAME"
    by (simp add: same_ignoring_case_def)
  have "length MISSPELLED_WORDS = 12" by (simp add: MISSPELLED_WORDS_def)
  with w i at s d c n show ?thesis by blast
qed

theorem find_misspelling_postcondition_witness:
  "find_misspelling ascii_runtime (str ''nice one, MBOMA.'') = Some (str ''MBOMA'') \<and>
   \<not> contains_whole_word ascii_runtime CORRECT_NAME (str ''nice one, MBOMA.'') \<and>
   \<not> same_ignoring_case (str ''MBOMA'') CORRECT_NAME"
proof -
  have f: "find_misspelling ascii_runtime (str ''nice one, MBOMA.'') = Some (str ''MBOMA'')"
    by (simp add: eval_matcher)
  from f find_misspelling_postcondition [OF f] show ?thesis by simp
qed

section \<open>Properties of the counters\<close>

lemma keys_distinct:
  "KEY_TOTAL \<noteq> KEY_MISSPELLINGS" "KEY_MISSPELLINGS \<noteq> KEY_TOTAL"
  "KEY_START_TIME \<noteq> KEY_TOTAL" "KEY_TOTAL \<noteq> KEY_START_TIME"
  "KEY_START_TIME \<noteq> KEY_MISSPELLINGS" "KEY_MISSPELLINGS \<noteq> KEY_START_TIME"
  by (simp_all add: KEY_TOTAL_def KEY_MISSPELLINGS_def KEY_START_TIME_def str_def)

lemma map_of_dict_set: "map_of (dict_set d k v) k' = (if k' = k then Some v else map_of d k')"
  by (induction d) auto

lemma map_of_dict_setdefault:
  "map_of (dict_setdefault d k v) k' =
     (if k' = k \<and> map_of d k = None then Some v else map_of d k')"
  by (auto simp: dict_setdefault_def map_add_def split: option.splits)

lemma py_add1_int: "as_int v = Some n \<Longrightarrow> py_add1 L v = Inr (PInt (n + 1))"
  by (cases v) auto

lemma sum_counts_entry:
  "sum_counts m = Some t \<Longrightarrow> map_of m k = Some v \<Longrightarrow> as_int v \<noteq> None"
  by (induction m arbitrary: t) (auto split: option.splits if_splits)

lemma sum_counts_snoc:
  "sum_counts (m @ [(k, v)]) =
     (case sum_counts m of
        None \<Rightarrow> None
      | Some t \<Rightarrow> (case as_int v of None \<Rightarrow> None | Some n \<Rightarrow> Some (t + n)))"
  by (induction m) (auto split: option.splits)

lemma sum_counts_dict_set:
  assumes "sum_counts m = Some t" and "map_of m k = Some c"
    and "as_int c = Some n" and "as_int v = Some n'"
  shows "sum_counts (dict_set m k v) = Some (t - n + n')"
  using assms by (induction m arbitrary: t) (auto split: option.splits if_splits)

lemma sum_counts_setdefault:
  "sum_counts (dict_setdefault m k (PInt 0)) = sum_counts m"
  by (auto simp: dict_setdefault_def sum_counts_snoc split: option.splits)

text \<open>What the three statements do to well-typed statistics.\<close>

lemma record_correction_typed:
  assumes t: "map_of stats KEY_TOTAL = Some t" and n: "as_int t = Some n"
    and m: "map_of stats KEY_MISSPELLINGS = Some (PDict m)" and sm: "sum_counts m = Some sm"
  shows "\<exists>c v. misspelling_count stats (py_lower L w) = Some c \<and>
           map_of (dict_setdefault m (py_lower L w) (PInt 0)) (py_lower L w) = Some v \<and>
           as_int v = Some c \<and>
           record_correction L w stats =
             (None,
              dict_set
                (dict_set (dict_set stats KEY_TOTAL (PInt (n + 1))) KEY_MISSPELLINGS
                   (PDict (dict_setdefault m (py_lower L w) (PInt 0))))
                KEY_MISSPELLINGS
                (PDict (dict_set (dict_setdefault m (py_lower L w) (PInt 0)) (py_lower L w)
                   (PInt (c + 1)))))"
proof -
  let ?k = "py_lower L w"
  let ?m1 = "dict_setdefault m ?k (PInt 0)"
  let ?s1 = "dict_set stats KEY_TOTAL (PInt (n + 1))"
  let ?s2 = "dict_set ?s1 KEY_MISSPELLINGS (PDict ?m1)"
  have "\<exists>c. misspelling_count stats ?k = Some c"
  proof (cases "map_of m ?k")
    case None
    with m show ?thesis by (simp add: misspelling_count_def misspelling_entry_def)
  next
    case (Some v)
    with sum_counts_entry [OF sm Some] m show ?thesis
      by (auto simp: misspelling_count_def misspelling_entry_def)
  qed
  then obtain c where c: "misspelling_count stats ?k = Some c" ..
  have s1: "bump_total L stats = Inr ?s1"
    using t n by (simp add: bump_total_def dict_getitem_def py_add1_int)
  have s2: "ensure_count ?k ?s1 = Inr ?s2"
    using m by (simp add: ensure_count_def dict_getitem_def map_of_dict_set keys_distinct)
  obtain v where v: "map_of ?m1 ?k = Some v" and vc: "as_int v = Some c"
    using c m by (auto simp: map_of_dict_setdefault misspelling_count_def misspelling_entry_def
        split: option.splits)
  have s3: "bump_count L ?k ?s2 =
      Inr (dict_set ?s2 KEY_MISSPELLINGS (PDict (dict_set ?m1 ?k (PInt (c + 1)))))"
    using v vc by (simp add: bump_count_def dict_getitem_def map_of_dict_set py_add1_int)
  show ?thesis
    using c v vc s1 s2 s3 by (simp add: record_correction_def)
qed

lemma is_intD: "is_int x \<Longrightarrow> \<exists>t n. x = Some t \<and> as_int t = Some n"
  by (cases x) auto

lemma is_countsD: "is_counts x \<Longrightarrow> \<exists>m t. x = Some (PDict m) \<and> sum_counts m = Some t"
  by (erule is_counts.elims) auto

lemma totals_agree_onD:
  "totals_agree_on x y \<Longrightarrow>
     \<exists>t n m. x = Some t \<and> as_int t = Some n \<and> y = Some (PDict m) \<and> sum_counts m = Some n"
  by (erule totals_agree_on.elims) auto

lemma record_correction_keeps_invariant:
  assumes "totals_agree stats"
  shows "\<exists>stats'. record_correction L w stats = (None, stats') \<and> totals_agree stats'"
proof -
  from assms obtain t n m where t: "map_of stats KEY_TOTAL = Some t" and n: "as_int t = Some n"
    and m: "map_of stats KEY_MISSPELLINGS = Some (PDict m)" and sm: "sum_counts m = Some n"
    unfolding totals_agree_def by (blast dest: totals_agree_onD)
  let ?k = "py_lower L w"
  let ?m1 = "dict_setdefault m ?k (PInt 0)"
  from record_correction_typed [OF t n m sm, of L w] obtain c v stats' where
    v: "map_of ?m1 ?k = Some v" and vc: "as_int v = Some c"
    and r: "record_correction L w stats = (None, stats')"
    and s': "stats' = dict_set
                (dict_set (dict_set stats KEY_TOTAL (PInt (n + 1))) KEY_MISSPELLINGS (PDict ?m1))
                KEY_MISSPELLINGS (PDict (dict_set ?m1 ?k (PInt (c + 1))))"
    by blast
  have "sum_counts ?m1 = Some n" by (simp add: sum_counts_setdefault sm)
  from sum_counts_dict_set [OF this v vc, of "PInt (c + 1)" "c + 1"]
  have "sum_counts (dict_set ?m1 ?k (PInt (c + 1))) = Some (n + 1)" by simp
  then have "totals_agree stats'"
    by (simp add: s' totals_agree_def map_of_dict_set keys_distinct)
  with r show ?thesis by blast
qed

lemmas eval_stats =
  record_correction_def bump_total_def ensure_count_def bump_count_def dict_getitem_def
  dict_setdefault_def py_lower_def ascii_runtime_def ascii_lower_def
  KEY_TOTAL_def KEY_MISSPELLINGS_def KEY_START_TIME_def str_def

lemmas eval_keys = KEY_TOTAL_def KEY_MISSPELLINGS_def KEY_START_TIME_def str_def

text \<open>
  Claim C3. From every statistics state in which \<open>total_corrections\<close> equals the sum of
  the per-misspelling counts, every sequence of recorded corrections runs without an
  exception and ends in a state in which the equality holds again.
\<close>

theorem total_equals_sum_preserved:
  "totals_agree stats \<Longrightarrow>
     \<exists>stats'. record_corrections L ws stats = (None, stats') \<and> totals_agree stats'"
proof (induction ws arbitrary: stats)
  case Nil
  then show ?case by simp
next
  case (Cons w ws)
  from record_correction_keeps_invariant [OF Cons.prems, of L w] obtain stats1 where
    r: "record_correction L w stats = (None, stats1)" and i: "totals_agree stats1" by blast
  from Cons.IH [OF i] r show ?case by simp
qed

theorem total_equals_sum_preserved_witness:
  "totals_agree sample_stats \<and>
   record_corrections ascii_runtime [str ''MBOMA'', str ''Mbeuno''] sample_stats = (None, sample_stats_after) \<and>
   totals_agree sample_stats_after"
proof -
  have h: "totals_agree sample_stats"
    by (simp add: sample_stats_def totals_agree_def eval_keys)
  have r: "record_corrections ascii_runtime [str ''MBOMA'', str ''Mbeuno''] sample_stats = (None, sample_stats_after)"
    by (simp add: sample_stats_def sample_stats_after_def eval_stats)
  from total_equals_sum_preserved [OF h, of ascii_runtime "[str ''MBOMA'', str ''Mbeuno'']"] h r
  show ?thesis by simp
qed

text \<open>
  Claim C8. On every well-typed statistics state and for every string, recording a
  correction raises nothing; the key is the lowercased string; its count, zero when the
  key is absent, grows by exactly one, and so does the total; the entries of all other
  misspellings and all other keys of the dictionary stay as they are.
\<close>

theorem record_correction_increments:
  assumes "stats_typed stats"
  shows "\<exists>stats' n c.
     record_correction L w stats = (None, stats') \<and>
     total_of stats = Some n \<and> total_of stats' = Some (n + 1) \<and>
     misspelling_count stats (py_lower L w) = Some c \<and>
     misspelling_entry stats' (py_lower L w) = Some (PInt (c + 1)) \<and>
     (\<forall>k. k \<noteq> py_lower L w \<longrightarrow> misspelling_entry stats' k = misspelling_entry stats k) \<and>
     (\<forall>k. k \<noteq> KEY_TOTAL \<and> k \<noteq> KEY_MISSPELLINGS \<longrightarrow> map_of stats' k = map_of stats k)"
proof -
  from assms obtain t n m sm where t: "map_of stats KEY_TOTAL = Some t" and n: "as_int t = Some n"
    and m: "map_of stats KEY_MISSPELLINGS = Some (PDict m)" and sm: "sum_counts m = Some sm"
    unfolding stats_typed_def by (blast dest: is_intD is_countsD)
  let ?k = "py_lower L w"
  let ?m1 = "dict_setdefault m ?k (PInt 0)"
  from record_correction_typed [OF t n m sm, of L w] obtain c stats' where
    c: "misspelling_count stats ?k = Some c"
    and r: "record_correction L w stats = (None, stats')"
    and s': "stats' = dict_set
                (dict_set (dict_set stats KEY_TOTAL (PInt (n + 1))) KEY_MISSPELLINGS (PDict ?m1))
                KEY_MISSPELLINGS (PDict (dict_set ?m1 ?k (PInt (c + 1))))"
    by blast
  have 1: "total_of stats = Some n" using t n by (simp add: total_of_def)
  have 2: "total_of stats' = Some (n + 1)"
    by (simp add: s' total_of_def map_of_dict_set keys_distinct)
  have 3: "misspelling_entry stats' ?k = Some (PInt (c + 1))"
    by (simp add: s' misspelling_entry_def map_of_dict_set)
  have 4: "\<forall>k. k \<noteq> ?k \<longrightarrow> misspelling_entry stats' k = misspelling_entry stats k"
    using m by (simp add: s' misspelling_entry_def map_of_dict_set map_of_dict_setdefault)
  have 5: "\<forall>k. k \<noteq> KEY_TOTAL \<and> k \<noteq> KEY_MISSPELLINGS \<longrightarrow> map_of stats' k = map_of stats k"
    by (simp add: s' map_of_dict_set)
  from r 1 2 c 3 4 5 show ?thesis by blast
qed

theorem record_correction_increments_witness:
  "stats_typed sample_stats \<and>
   (\<exists>stats'. record_correction ascii_runtime (str ''Mbeuno'') sample_stats = (None, stats') \<and>
      total_of sample_stats = Some 3 \<and> total_of stats' = Some 4 \<and>
      misspelling_count sample_stats (str ''mbeuno'') = Some 0 \<and>
      misspelling_entry stats' (str ''mbeuno'') = Some (PInt 1) \<and>
      misspelling_entry stats' (str ''mboma'') = Some (PInt 1))"
proof -
  have h: "stats_typed sample_stats"
    by (simp add: sample_stats_def stats_typed_def eval_keys)
  have k: "py_lower ascii_runtime (str ''Mbeuno'') = str ''mbeuno''"
    by (simp add: py_lower_def str_def ascii_lower_def)
  have t: "total_of sample_stats = Some 3"
    by (simp add: sample_stats_def total_of_def eval_keys)
  have c: "misspelling_count sample_stats (str ''mbeuno'') = Some 0"
    by (simp add: sample_stats_def misspelling_count_def misspelling_entry_def eval_keys)
  have e: "misspelling_entry sample_stats (str ''mboma'') = Some (PInt 1)"
    by (simp add: sample_stats_def misspelling_entry_def eval_keys)
  have ne: "str ''mboma'' \<noteq> str ''mbeuno''" by (simp add: str_def)
  from record_correction_increments [OF h, of ascii_runtime "str ''Mbeuno''"] h t c e ne
  show ?thesis unfolding k by auto
qed

section \<open>Properties of the stats store\<close>

lemma load_stats_Absent: "load_stats L now Absent = Inr (fresh_stats now)"
  by (simp add: load_stats_def)

lemma load_stats_Unreadable: "load_stats L now (Unreadable e) = Inr (fresh_stats now)"
  by (simp add: load_stats_def load_stats_try_def)

lemma load_stats_unparseable:
  "json_load L body = Inl e \<Longrightarrow> load_stats L now (Content body) = Inr (fresh_stats now)"
  by (simp add: load_stats_def load_stats_try_def)

lemma load_stats_not_object:
  assumes "json_load L body = Inr v" and "\<forall>d. v \<noteq> PDict d"
  shows "load_stats L now (Content body) = Inr (fresh_stats now)"
proof -
  have "py_setdefault v KEY_START_TIME (PStr now) = Inl AttributeError"
    using assms(2) by (cases v) auto
  with assms(1) show ?thesis
    by (simp add: load_stats_def load_stats_try_def)
qed

text \<open>
  Where the existence test answers, \<open>load_stats\<close> fails open: an absent file, a file
  that cannot be opened or read, and a file whose text does not parse all give the
  fresh default state.
\<close>

lemma load_stats_falls_through:
  assumes "file = Absent \<or> (\<exists>e. file = Unreadable e) \<or>
           (\<exists>body e. file = Content body \<and> json_load L body = Inl e)"
  shows "load_stats L now file =
           Inr (PDict [(KEY_START_TIME, PStr now), (KEY_TOTAL, PInt 0),
                       (KEY_MISSPELLINGS, PDict [])])"
proof -
  from assms consider "file = Absent" | e where "file = Unreadable e"
    | body e where "file = Content body" "json_load L body = Inl e" by blast
  then have "load_stats L now file = Inr (fresh_stats now)"
  proof cases
    case 1
    then show ?thesis by (simp add: load_stats_Absent)
  next
    case 2
    then show ?thesis by (simp add: load_stats_Unreadable)
  next
    case 3
    then show ?thesis by (simp add: load_stats_unparseable)
  qed
  then show ?thesis by (simp add: fresh_stats_def)
qed

lemma dict_setdefault_filter:
  "map_of d' k = map_of d k \<Longrightarrow>
     dict_setdefault d' k v = d' @ filter (\<lambda>(k', v'). map_of d k' = None) [(k, v)]"
  by (simp add: dict_setdefault_def split: option.splits)

lemma load_stats_try_object:
  assumes "json_load L body = Inr (PDict d)"
  shows "load_stats_try L now (Content body) =
           Inr (PDict (dict_setdefault (dict_setdefault (dict_setdefault d
                  KEY_START_TIME (PStr now)) KEY_TOTAL (PInt 0)) KEY_MISSPELLINGS (PDict [])))"
  using assms by (simp add: load_stats_try_def)

lemma three_setdefaults:
  assumes "a \<noteq> b" "a \<noteq> c" "b \<noteq> c"
  shows "dict_setdefault (dict_setdefault (dict_setdefault d a x) b y) c z =
           d @ filter (\<lambda>(k, v). map_of d k = None) [(a, x), (b, y), (c, z)]"
proof -
  let ?d1 = "dict_setdefault d a x"
  let ?d2 = "dict_setdefault ?d1 b y"
  have 1: "map_of ?d1 b = map_of d b"
    using assms by (simp add: map_of_dict_setdefault)
  have 2: "map_of ?d2 c = map_of d c"
    using assms by (simp add: map_of_dict_setdefault)
  have e1: "?d1 = d @ filter (\<lambda>(k, v). map_of d k = None) [(a, x)]"
    by (rule dict_setdefault_filter [OF refl])
  have e2: "?d2 = ?d1 @ filter (\<lambda>(k, v). map_of d k = None) [(b, y)]"
    by (rule dict_setdefault_filter [OF 1])
  have e3: "dict_setdefault ?d2 c z = ?d2 @ filter (\<lambda>(k, v). map_of d k = None) [(c, z)]"
    by (rule dict_setdefault_filter [OF 2])
  show ?thesis
    by (subst e3, subst e2, subst e1) simp
qed

lemma load_stats_object:
  assumes "json_load L body = Inr (PDict d)"
  shows "load_stats L now (Content body) =
           Inr (PDict (d @ filter (\<lambda>(k, v). map_of d k = None)
                  [(KEY_START_TIME, PStr now), (KEY_TOTAL, PInt 0), (KEY_MISSPELLINGS, PDict [])]))"
  by (simp only: load_stats_def path_exists.simps sum.case bool.case
      load_stats_try_object [OF assms]
      three_setdefaults [OF keys_distinct(3) keys_distinct(5) keys_distinct(1)])

lemma map_of_with_defaults:
  "map_of (d @ filter (\<lambda>(k, v). map_of d k = None) ds) k =
     (case map_of d k of Some v \<Rightarrow> Some v | None \<Rightarrow> map_of ds k)"
proof (cases "map_of d k")
  case None
  have "map_of (filter (\<lambda>(k, v). map_of d k = None) ds) k = map_of ds k"
    using None by (induction ds) auto
  with None show ?thesis by (simp add: map_add_def)
next
  case (Some v)
  then show ?thesis by (simp add: map_add_def)
qed

text \<open>
  Claim C4. \<open>load_stats\<close> is to return the fresh default state, and never to raise,
  whatever the state of the backing file, an unreadable one included. The code does not:
  the call \<^verbatim>\<open>STATS_PATH.exists()\<close> stands before the \<^verbatim>\<open>try\<close>, so when the path
  cannot be examined, as with a directory that denies search permission, the
  \<^verbatim>\<open>PermissionError\<close> of the test leaves \<open>load_stats\<close> and no state is returned.
\<close>

theorem load_stats_raises_when_stat_fails:
  "load_stats L now (StatFails PermissionError) = Inl PermissionError"
  by (simp add: load_stats_def)

text \<open>
  Claim C10. When the file exists and parses as a JSON object, \<open>load_stats\<close> returns
  that object with every pair it holds unchanged and in place, followed by the defaults
  of those of \<open>start_time\<close>, \<open>total_corrections\<close> and \<open>misspellings\<close> that it
  lacks; no other key is added.
\<close>

theorem load_stats_merges_defaults:
  assumes "json_load L body = Inr (PDict d)"
  shows "\<exists>d'. load_stats L now (Content body) = Inr (PDict d') \<and>
           d' = d @ filter (\<lambda>(k, v). map_of d k = None)
                  [(KEY_START_TIME, PStr now), (KEY_TOTAL, PInt 0), (KEY_MISSPELLINGS, PDict [])] \<and>
           (\<forall>k v. map_of d k = Some v \<longrightarrow> map_of d' k = Some v) \<and>
           (map_of d KEY_START_TIME = None \<longrightarrow> map_of d' KEY_START_TIME = Some (PStr now)) \<and>
           (map_of d KEY_TOTAL = None \<longrightarrow> map_of d' KEY_TOTAL = Some (PInt 0)) \<and>
           (map_of d KEY_MISSPELLINGS = None \<longrightarrow> map_of d' KEY_MISSPELLINGS = Some (PDict [])) \<and>
           (\<forall>k. k \<noteq> KEY_START_TIME \<and> k \<noteq> KEY_TOTAL \<and> k \<noteq> KEY_MISSPELLINGS \<longrightarrow>
                map_of d' k = map_of d k)"
proof -
  let ?d' = "d @ filter (\<lambda>(k, v). map_of d k = None)
                  [(KEY_START_TIME, PStr now), (KEY_TOTAL, PInt 0), (KEY_MISSPELLINGS, PDict [])]"
  have l: "load_stats L now (Content body) = Inr (PDict ?d')"
    by (rule load_stats_object [OF assms])
  have 1: "\<forall>k v. map_of d k = Some v \<longrightarrow> map_of ?d' k = Some v"
    by (simp only: map_of_with_defaults) simp
  have 2: "map_of d KEY_START_TIME = None \<longrightarrow> map_of ?d' KEY_START_TIME = Some (PStr now)"
    by (simp only: map_of_with_defaults) simp
  have 3: "map_of d KEY_TOTAL = None \<longrightarrow> map_of ?d' KEY_TOTAL = Some (PInt 0)"
    by (simp only: map_of_with_defaults) (simp add: keys_distinct)
  have 4: "map_of d KEY_MISSPELLINGS = None \<longrightarrow> map_of ?d' KEY_MISSPELLINGS = Some (PDict [])"
    by (simp only: map_of_with_defaults) (simp add: keys_distinct)
  have 5: "\<forall>k. k \<noteq> KEY_START_TIME \<and> k \<noteq> KEY_TOTAL \<and> k \<noteq> KEY_MISSPELLINGS \<longrightarrow>
                map_of ?d' k = map_of d k"
    by (simp only: map_of_with_defaults) (simp split: option.splits)
  show ?thesis
    by (intro exI [of _ ?d'] conjI l refl 1 2 3 4 5)
qed

lemmas eval_codec = codec_runtime_def ascii_runtime_def

text \<open>
  The file of the witness holds only \<open>total_corrections\<close>: the total is kept and the
  two other keys are added behind it.
\<close>

theorem load_stats_merges_defaults_witness:
  "json_load (codec_runtime partial_stats_text (PDict partial_stats)) partial_stats_text =
     Inr (PDict partial_stats) \<and>
   load_stats (codec_runtime partial_stats_text (PDict partial_stats))
       (str ''2024-05-01T10:00:00+00:00'') (Content partial_stats_text) =
     Inr (PDict [(KEY_TOTAL, PInt 7),
                 (KEY_START_TIME, PStr (str ''2024-05-01T10:00:00+00:00'')),
                 (KEY_MISSPELLINGS, PDict [])])"
proof -
  have j: "json_load (codec_runtime partial_stats_text (PDict partial_stats)) partial_stats_text =
     Inr (PDict partial_stats)"
    by (simp add: eval_codec)
  from load_stats_merges_defaults [OF j, of "str ''2024-05-01T10:00:00+00:00''"] j
  show ?thesis by (simp add: partial_stats_def keys_distinct)
qed

lemma save_stats_succeeds:
  assumes "save_stats L fault stats file = Inr (file', [])"
  shows "fault = NoFault \<and> snd (json_dump L stats) = None \<and>
         file' = Content (fst (json_dump L stats))"
  using assms
  by (cases fault; cases "snd (json_dump L stats)")
     (simp_all add: save_stats_def save_stats_try_def)

lemma stats_complete_keys:
  assumes "stats_complete stats"
  shows "map_of stats KEY_START_TIME \<noteq> None" "map_of stats KEY_TOTAL \<noteq> None"
    "map_of stats KEY_MISSPELLINGS \<noteq> None"
proof -
  from assms have "is_str (map_of stats KEY_START_TIME)" "is_int (map_of stats KEY_TOTAL)"
    "is_counts (map_of stats KEY_MISSPELLINGS)"
    by (simp_all add: stats_complete_def stats_typed_def)
  then show "map_of stats KEY_START_TIME \<noteq> None" "map_of stats KEY_TOTAL \<noteq> None"
    "map_of stats KEY_MISSPELLINGS \<noteq> None"
    by (auto dest: is_intD is_countsD elim: is_str.elims)
qed

text \<open>
  Claim C5. For every statistics value that holds \<open>start_time\<close> (a string),
  \<open>total_corrections\<close> (an integer) and \<open>misspellings\<close> (a mapping from strings to
  integers): if \<open>save_stats\<close> writes the file without a failure, and the JSON library
  reads back what it has written for this value, then \<open>load_stats\<close> on the file
  returns the same dictionary, so the same mapping and the same total.
\<close>

theorem save_then_load_round_trip:
  assumes c: "stats_complete stats"
    and s: "save_stats L fault (PDict stats) file = Inr (file', [])"
    and j: "\<forall>doc. json_dump L (PDict stats) = (doc, None) \<longrightarrow> json_load L doc = Inr (PDict stats)"
  shows "\<exists>stats'. load_stats L now file' = Inr (PDict stats') \<and>
           stats' = stats \<and>
           map_of stats' KEY_MISSPELLINGS = map_of stats KEY_MISSPELLINGS \<and>
           map_of stats' KEY_TOTAL = map_of stats KEY_TOTAL"
proof -
  from save_stats_succeeds [OF s] have n: "snd (json_dump L (PDict stats)) = None"
    and f: "file' = Content (fst (json_dump L (PDict stats)))" by simp_all
  from n have "json_dump L (PDict stats) = (fst (json_dump L (PDict stats)), None)"
    by (simp add: prod_eq_iff)
  with j have "json_load L (fst (json_dump L (PDict stats))) = Inr (PDict stats)" by blast
  from load_stats_object [OF this, of now]
  have "load_stats L now file' = Inr (PDict stats)"
    using stats_complete_keys [OF c] by (simp add: f)
  then show ?thesis by simp
qed

theorem save_then_load_round_trip_witness:
  "stats_complete sample_stats \<and>
   save_stats (codec_runtime sample_stats_text (PDict sample_stats)) NoFault (PDict sample_stats) Absent =
     Inr (Content sample_stats_text, []) \<and>
   json_load (codec_runtime sample_stats_text (PDict sample_stats)) sample_stats_text =
     Inr (PDict sample_stats) \<and>
   load_stats (codec_runtime sample_stats_text (PDict sample_stats))
       (str ''2024-06-01T00:00:00+00:00'') (Content sample_stats_text) = Inr (PDict sample_stats)"
proof -
  let ?R = "codec_runtime sample_stats_text (PDict sample_stats)"
  have c: "stats_complete sample_stats"
    by (simp add: sample_stats_def stats_complete_def stats_typed_def eval_keys)
  have s: "save_stats ?R NoFault (PDict sample_stats) Absent = Inr (Content sample_stats_text, [])"
    by (simp add: save_stats_def save_stats_try_def eval_codec)
  have j: "\<forall>doc. json_dump ?R (PDict sample_stats) = (doc, None) \<longrightarrow>
             json_load ?R doc = Inr (PDict sample_stats)"
    by (simp add: eval_codec)
  have l: "json_load ?R sample_stats_text = Inr (PDict sample_stats)"
    by (simp add: eval_codec)
  from save_then_load_round_trip [OF c s j, of "str ''2024-06-01T00:00:00+00:00''"] c s l
  show ?thesis by simp
qed

text \<open>
  Claim C7. \<open>save_stats\<close> never raises: whatever the statistics, the file and the fault
  of the operating system or of the serializer, it returns; when the body of its
  \<^verbatim>\<open>try\<close> raised an exception, the one line it prints reports that exception, and it
  prints nothing otherwise.
\<close>

theorem save_stats_never_raises:
  "\<exists>file' out. save_stats L fault stats file = Inr (file', out) \<and>
     (\<forall>e. snd (save_stats_try L fault stats file) = Some e \<longrightarrow> out = [StatsFailedToSave e]) \<and>
     (snd (save_stats_try L fault stats file) = None \<longrightarrow> out = [])"
  by (cases "save_stats_try L fault stats file"; cases "snd (save_stats_try L fault stats file)")
     (simp_all add: save_stats_def)

theorem save_stats_never_raises_witness:
  "snd (save_stats_try ascii_runtime (OpenFails OSError) (PDict sample_stats) Absent) = Some OSError \<and>
   (\<exists>file'. save_stats ascii_runtime (OpenFails OSError) (PDict sample_stats) Absent =
      Inr (file', [StatsFailedToSave OSError]))"
proof -
  have t: "snd (save_stats_try ascii_runtime (OpenFails OSError) (PDict sample_stats) Absent) = Some OSError"
    by (simp add: save_stats_try_def)
  from save_stats_never_raises [of ascii_runtime "OpenFails OSError" "PDict sample_stats" Absent] t
  show ?thesis by auto
qed

section \<open>The poll interval\<close>

text \<open>
  Claim C6, as the code has it. The effective poll interval is the configured value when
  that is at least 10; a lower value is raised to 10 and the warning line is printed;
  without a configured value the interval is 60. In particular a configured 5 gives 10,
  with the warning.
\<close>

theorem poll_interval_floor:
  "(py_int L v = Inr n \<longrightarrow>
      poll_interval L (Some v) =
        Inr (if 10 \<le> n then (n, []) else (10, [WarnPollIntervalTooLow]))) \<and>
   (py_int L (str ''60'') = Inr 60 \<longrightarrow> poll_interval L None = Inr (60, []))"
  by (simp add: poll_interval_def)

theorem poll_interval_floor_witness:
  "py_int ascii_runtime (str ''5'') = Inr 5 \<and>
   poll_interval ascii_runtime (Some (str ''5'')) = Inr (10, [WarnPollIntervalTooLow]) \<and>
   py_int ascii_runtime (str ''60'') = Inr 60 \<and>
   poll_interval ascii_runtime None = Inr (60, []) \<and>
   py_int ascii_runtime (str ''45'') = Inr 45 \<and>
   poll_interval ascii_runtime (Some (str ''45'')) = Inr (45, [])"
proof -
  have a: "py_int ascii_runtime (str ''5'') = Inr 5"
    by (simp add: ascii_runtime_def decimal_int_def str_def)
  have b: "py_int ascii_runtime (str ''60'') = Inr 60"
    by (simp add: ascii_runtime_def decimal_int_def str_def)
  have c: "py_int ascii_runtime (str ''45'') = Inr 45"
    by (simp add: ascii_runtime_def decimal_int_def str_def)
  from a b c
    poll_interval_floor [of ascii_runtime "str ''5''" 5]
    poll_interval_floor [of ascii_runtime "str ''45''" 45]
  show ?thesis by simp
qed

text \<open>
  Claim C6 as the specification words it has the value raised \<^emph>\<open>silently\<close>. With 5
  configured the interval is 10, but not without output: the program prints its warning.
\<close>

theorem poll_interval_not_silent:
  "poll_interval ascii_runtime (Some (str ''5'')) \<noteq> Inr (10, [])"
  by (simp add: poll_interval_def ascii_runtime_def decimal_int_def str_def)

end
